theory Spec2Isabelle
  imports Complex_Main
begin

section \<open>Shared data\<close>

text \<open>
  The module \<^verbatim>\<open>bdi_api/settings.py\<close> is not among the sources; the three fields of its
  \<^verbatim>\<open>Settings\<close> object that the endpoints read are the fields of this record, and every
  function below takes the record as a parameter.
\<close>

record settings =
  source_url :: string
  s3_bucket :: string
  raw_dir :: string

type_synonym bytes = string

text \<open>
  Calls the endpoints make on the outside world, in the order they are made. A call is
  recorded when it is made, whether or not it raises.
\<close>

datatype event =
    HttpGet string                    \<comment> \<open>\<^verbatim>\<open>requests.get(file_url, timeout=20)\<close>\<close>
  | WriteFile string bytes            \<comment> \<open>\<^verbatim>\<open>open(filename, "wb")\<close> and \<^verbatim>\<open>f.write(r.content)\<close>\<close>
  | UploadFile string string string   \<comment> \<open>\<^verbatim>\<open>s3.upload_file(Filename, Bucket, Key)\<close>\<close>
  | Unlink string                     \<comment> \<open>\<^verbatim>\<open>Path(filename).unlink()\<close>\<close>
  | MakeDirs string                   \<comment> \<open>\<^verbatim>\<open>os.makedirs(local_raw_dir, exist_ok=True)\<close>\<close>
  | ListObjects string string         \<comment> \<open>\<^verbatim>\<open>s3.list_objects_v2(Bucket, Prefix)\<close>\<close>
  | DownloadFile string string string \<comment> \<open>\<^verbatim>\<open>s3.download_file(bucket, key, local_path)\<close>\<close>

section \<open>s4: \<^verbatim>\<open>download_data\<close>\<close>

subsection \<open>The file name: \<^verbatim>\<open>f"{hh:02d}{mm:02d}{ss:02d}Z.json.gz"\<close>\<close>

definition digit_char :: "nat \<Rightarrow> char" where
  "digit_char d = ''0123456789'' ! d"

fun dec_digits :: "nat \<Rightarrow> string" where
  "dec_digits n = (if n < 10 then [digit_char n] else dec_digits (n div 10) @ [digit_char (n mod 10)])"

declare dec_digits.simps [simp del]

definition zero_pad :: "nat \<Rightarrow> string \<Rightarrow> string" where
  "zero_pad w s = replicate (w - length s) (CHR ''0'') @ s"

text \<open>
  Python's format specification \<^verbatim>\<open>02d\<close>: decimal digits, padded with zeros after the sign
  to a total width of at least two; a wider number is not truncated.
\<close>

definition fmt_02d :: "int \<Rightarrow> string" where
  "fmt_02d n =
     (if n < 0 then CHR ''-'' # zero_pad 1 (dec_digits (nat (- n)))
      else zero_pad 2 (dec_digits (nat n)))"

definition file_name :: "int \<Rightarrow> string" where
  "file_name seconds =
     (let hh = seconds div 3600;
          mm = (seconds mod 3600) div 60;
          ss = seconds mod 60
      in fmt_02d hh @ fmt_02d mm @ fmt_02d ss @ ''Z.json.gz'')"

definition base_url :: "settings \<Rightarrow> string" where
  "base_url cfg = source_url cfg @ ''/2023/11/01/''"

definition s3_prefix_path :: string where
  "s3_prefix_path = ''raw/day=20231101/''"

subsection \<open>What one attempt meets\<close>

text \<open>
  The outside world's answer to one pass through the loop body: what \<^verbatim>\<open>requests.get\<close>
  does, and whether writing the temporary file, \<^verbatim>\<open>s3.upload_file\<close> and
  \<^verbatim>\<open>Path.unlink\<close> raise. A field is read only when the pass reaches that call.
\<close>

datatype fetch_result =
    FetchRaises
  | Response int bytes   \<comment> \<open>\<^verbatim>\<open>r.status_code\<close>, \<^verbatim>\<open>r.content\<close>\<close>

record attempt =
  fetch :: fetch_result
  write_raises :: bool
  upload_raises :: bool
  unlink_raises :: bool

record dl_state =
  downloaded :: int
  seconds :: int
  trace :: "event list"

definition emit :: "event \<Rightarrow> dl_state \<Rightarrow> dl_state" where
  "emit e s = s\<lparr>trace := trace s @ [e]\<rparr>"

definition next_timestamp :: "dl_state \<Rightarrow> dl_state" where
  "next_timestamp s = s\<lparr>seconds := seconds s + 5\<rparr>"

text \<open>
  One pass through the body of \<^verbatim>\<open>while downloaded < file_limit\<close>. A raised exception
  leaves the \<^verbatim>\<open>try\<close> block at that call, is caught by \<^verbatim>\<open>except Exception\<close>, and the
  pass ends with \<^verbatim>\<open>seconds += 5\<close>; a status other than 200 ends the pass with
  \<^verbatim>\<open>seconds += 5; continue\<close>.
\<close>

definition loop_body :: "settings \<Rightarrow> attempt \<Rightarrow> dl_state \<Rightarrow> dl_state" where
  "loop_body cfg a s =
     (let filename = file_name (seconds s);
          file_url = base_url cfg @ filename;
          s1 = emit (HttpGet file_url) s
      in case fetch a of
           FetchRaises \<Rightarrow> next_timestamp s1
         | Response status_code content \<Rightarrow>
             if status_code \<noteq> 200 then next_timestamp s1
             else
               let s2 = emit (WriteFile filename content) s1 in
               if write_raises a then next_timestamp s2
               else
                 let s3 = emit (UploadFile filename (s3_bucket cfg) (s3_prefix_path @ filename)) s2 in
                 if upload_raises a then next_timestamp s3
                 else
                   let s4 = emit (Unlink filename) s3 in
                   if unlink_raises a then next_timestamp s4
                   else next_timestamp (s4\<lparr>downloaded := downloaded s4 + 1\<rparr>))"

text \<open>
  The loop. The world is the sequence of answers the attempts meet, the first attempt
  meeting \<open>w 0\<close>; a loop that never leaves is the value \<open>None\<close>.
\<close>

partial_function (option) download_loop ::
  "settings \<Rightarrow> int \<Rightarrow> (nat \<Rightarrow> attempt) \<Rightarrow> dl_state \<Rightarrow> dl_state option" where
  "download_loop cfg file_limit w s =
     (if downloaded s < file_limit
      then download_loop cfg file_limit (\<lambda>i. w (Suc i)) (loop_body cfg (w 0) s)
      else Some s)"

definition initial_state :: dl_state where
  "initial_state = \<lparr>downloaded = 0, seconds = 0, trace = []\<rparr>"

text \<open>The endpoint: the returned string and the calls made, or \<open>None\<close> when it never returns.\<close>

definition download_data :: "settings \<Rightarrow> (nat \<Rightarrow> attempt) \<Rightarrow> int \<Rightarrow> (string \<times> event list) option" where
  "download_data cfg w file_limit =
     map_option (\<lambda>s. (''OK'', trace s)) (download_loop cfg file_limit w initial_state)"

text \<open>
  The state after at most \<open>k\<close> passes: the loop unrolled \<open>k\<close> times, used to speak of the
  attempts of a run that has not returned (or never will).
\<close>

fun download_steps :: "settings \<Rightarrow> int \<Rightarrow> nat \<Rightarrow> (nat \<Rightarrow> attempt) \<Rightarrow> dl_state \<Rightarrow> dl_state" where
  "download_steps cfg file_limit 0 w s = s"
| "download_steps cfg file_limit (Suc k) w s =
     (if downloaded s < file_limit
      then download_steps cfg file_limit k (\<lambda>i. w (Suc i)) (loop_body cfg (w 0) s)
      else s)"

subsection \<open>Vocabulary of the statements about \<^verbatim>\<open>download_data\<close>\<close>

text \<open>The fetch came back with \<^verbatim>\<open>r.status_code == 200\<close>.\<close>

definition returns_200 :: "attempt \<Rightarrow> bool" where
  "returns_200 a = (case fetch a of FetchRaises \<Rightarrow> False | Response status_code content \<Rightarrow> status_code = 200)"

definition response_content :: "attempt \<Rightarrow> bytes" where
  "response_content a = (case fetch a of FetchRaises \<Rightarrow> [] | Response status_code content \<Rightarrow> content)"

text \<open>\<^verbatim>\<open>s3.upload_file\<close> returns without an exception.\<close>

definition upload_succeeds :: "attempt \<Rightarrow> bool" where
  "upload_succeeds a = (\<not> upload_raises a)"

text \<open>The temporary file in the working directory can be written and deleted.\<close>

definition local_file_ok :: "attempt \<Rightarrow> bool" where
  "local_file_ok a = (\<not> write_raises a \<and> \<not> unlink_raises a)"

text \<open>The pass reaches \<^verbatim>\<open>downloaded += 1\<close>: status 200 and no call of the \<^verbatim>\<open>try\<close> block raises.\<close>

definition counted :: "attempt \<Rightarrow> bool" where
  "counted a = (returns_200 a \<and> \<not> write_raises a \<and> \<not> upload_raises a \<and> \<not> unlink_raises a)"

definition successes :: "(nat \<Rightarrow> attempt) \<Rightarrow> nat \<Rightarrow> nat" where
  "successes w k = length (filter counted (map w [0..<k]))"

text \<open>The URLs of the fetches of a trace, in order.\<close>

fun fetched_urls :: "event list \<Rightarrow> string list" where
  "fetched_urls [] = []"
| "fetched_urls (HttpGet u # es) = u # fetched_urls es"
| "fetched_urls (e # es) = fetched_urls es"

fun is_upload :: "event \<Rightarrow> bool" where
  "is_upload (UploadFile f b k) = True"
| "is_upload e = False"

text \<open>
  The calls of a pass at offset \<open>sec\<close> in which nothing fails: fetch, write the temporary
  file, upload it under the fixed prefix, delete the temporary file.
\<close>

definition success_events :: "settings \<Rightarrow> int \<Rightarrow> bytes \<Rightarrow> event list" where
  "success_events cfg sec content =
     [HttpGet (base_url cfg @ file_name sec),
      WriteFile (file_name sec) content,
      UploadFile (file_name sec) (s3_bucket cfg) (s3_prefix_path @ file_name sec),
      Unlink (file_name sec)]"

text \<open>Concrete inputs for the closed instances below.\<close>

definition cfg0 :: settings where
  "cfg0 = \<lparr>source_url = ''http://h'', s3_bucket = ''b'', raw_dir = ''d''\<rparr>"

definition ok_attempt :: attempt where
  "ok_attempt = \<lparr>fetch = Response 200 ''x'', write_raises = False, upload_raises = False, unlink_raises = False\<rparr>"

definition fail_attempt :: attempt where
  "fail_attempt = \<lparr>fetch = Response 404 [], write_raises = False, upload_raises = False, unlink_raises = False\<rparr>"

definition raise_attempt :: attempt where
  "raise_attempt = \<lparr>fetch = FetchRaises, write_raises = False, upload_raises = False, unlink_raises = False\<rparr>"

text \<open>The fetch returns 200 and the upload succeeds, but deleting the temporary file raises.\<close>

definition unlink_fail_attempt :: attempt where
  "unlink_fail_attempt = \<lparr>fetch = Response 200 ''x'', write_raises = False, upload_raises = False, unlink_raises = True\<rparr>"

section \<open>s4: \<^verbatim>\<open>prepare_data\<close>\<close>

text \<open>\<^verbatim>\<open>str.split(sep)\<close> for a one-character separator: the pieces between the separators, never an empty list.\<close>

fun split_on :: "char \<Rightarrow> string \<Rightarrow> string list" where
  "split_on sep [] = [[]]"
| "split_on sep (c # cs) =
     (if c = sep then [] # split_on sep cs
      else case split_on sep cs of
             [] \<Rightarrow> [[c]]
           | p # ps \<Rightarrow> (c # p) # ps)"

text \<open>\<^verbatim>\<open>filename = key.split("/")[-1]\<close>\<close>

definition key_filename :: "string \<Rightarrow> string" where
  "key_filename key = last (split_on (CHR ''/'') key)"

text \<open>\<^verbatim>\<open>os.path.join(a, b)\<close> of \<^verbatim>\<open>posixpath\<close>, for two arguments.\<close>

definition path_join :: "string \<Rightarrow> string \<Rightarrow> string" where
  "path_join a b =
     (if b \<noteq> [] \<and> hd b = CHR ''/'' then b
      else if a = [] \<or> last a = CHR ''/'' then a @ b
      else a @ ''/'' @ b)"

definition local_raw_dir :: "settings \<Rightarrow> string" where
  "local_raw_dir cfg = path_join (raw_dir cfg) ''day=20231101''"

text \<open>
  \<^verbatim>\<open>s3.download_file\<close> is called outside any \<^verbatim>\<open>try\<close>: when it raises for a key, the
  exception leaves \<^verbatim>\<open>prepare_data\<close> and the objects after it are not copied.
\<close>

datatype py_exception = DownloadFailed string

text \<open>The \<^verbatim>\<open>for obj in response["Contents"]\<close> loop, each object given by its \<^verbatim>\<open>"Key"\<close>.\<close>

fun copy_objects ::
  "settings \<Rightarrow> (string \<Rightarrow> bool) \<Rightarrow> string list \<Rightarrow> event list \<Rightarrow> (py_exception + unit) \<times> event list" where
  "copy_objects cfg download_raises [] tr = (Inr (), tr)"
| "copy_objects cfg download_raises (key # objs) tr =
     (let filename = key_filename key;
          local_path = path_join (local_raw_dir cfg) filename;
          tr' = tr @ [DownloadFile (s3_bucket cfg) key local_path]
      in if download_raises key then (Inl (DownloadFailed key), tr')
         else copy_objects cfg download_raises objs tr')"

text \<open>
  The endpoint. \<open>contents\<close> is \<open>None\<close> when the listing response has no \<^verbatim>\<open>"Contents"\<close>
  entry, and the keys of the listed objects in listing order otherwise.
\<close>

definition prepare_data ::
  "settings \<Rightarrow> string list option \<Rightarrow> (string \<Rightarrow> bool) \<Rightarrow> (py_exception + string) \<times> event list" where
  "prepare_data cfg contents download_raises =
     (let tr = [MakeDirs (local_raw_dir cfg), ListObjects (s3_bucket cfg) ''raw/day=20231101/'']
      in case contents of
           None \<Rightarrow> (Inr ''No files in bucket'', tr)
         | Some objs \<Rightarrow>
             (case copy_objects cfg download_raises objs tr of
                (Inl e, tr') \<Rightarrow> (Inl e, tr')
              | (Inr u, tr') \<Rightarrow> (Inr ''OK'', tr')))"

fun is_download :: "event \<Rightarrow> bool" where
  "is_download (DownloadFile b k p) = True"
| "is_download e = False"

section \<open>s5: the HR database\<close>

text \<open>
  Modelled from the spec: the schema script \<^verbatim>\<open>hr_schema.sql\<close> is not among the sources. The
  tables and the columns are those the SQL statements of the endpoints name; a table is
  the list of its rows. That \<^verbatim>\<open>employee.department_id\<close> and the salaries may be \<^verbatim>\<open>NULL\<close>
  is the weakest reading of the schema: a column that cannot be \<^verbatim>\<open>NULL\<close> only ever holds
  \<open>Some\<close>.
\<close>

record department_row =
  d_id :: int
  d_name :: string
  d_location :: string

record employee_row =
  e_id :: int
  e_first_name :: string
  e_last_name :: string
  e_email :: string
  e_salary :: "rat option"
  e_hire_date :: string
  e_department_id :: "int option"

record project_row =
  p_id :: int
  p_name :: string

record employee_project_row =
  ep_employee_id :: int
  ep_project_id :: int

record salary_history_row =
  sh_employee_id :: int
  sh_change_date :: string
  sh_old_salary :: "rat option"
  sh_new_salary :: "rat option"
  sh_reason :: string

record database =
  department :: "department_row list"
  employee :: "employee_row list"
  project :: "project_row list"
  employee_project :: "employee_project_row list"
  salary_history :: "salary_history_row list"

subsection \<open>SQL operators\<close>

text \<open>\<^verbatim>\<open>xs JOIN ys ON on\<close>: the pairs that satisfy the condition.\<close>

definition inner_join :: "'a list \<Rightarrow> 'b list \<Rightarrow> ('a \<Rightarrow> 'b \<Rightarrow> bool) \<Rightarrow> ('a \<times> 'b) list" where
  "inner_join xs ys on = concat (map (\<lambda>x. map (\<lambda>y. (x, y)) (filter (on x) ys)) xs)"

text \<open>\<^verbatim>\<open>xs LEFT JOIN ys ON on\<close>: a left row without a match is kept once, with \<^verbatim>\<open>NULL\<close>s on the right.\<close>

definition left_join :: "'a list \<Rightarrow> 'b list \<Rightarrow> ('a \<Rightarrow> 'b \<Rightarrow> bool) \<Rightarrow> ('a \<times> 'b option) list" where
  "left_join xs ys on =
     concat (map (\<lambda>x. let matches = filter (on x) ys
                      in if matches = [] then [(x, None)]
                         else map (\<lambda>y. (x, Some y)) matches) xs)"

text \<open>\<^verbatim>\<open>cur.fetchone()\<close>: the first row of the result, \<^verbatim>\<open>None\<close> when there is none.\<close>

definition fetchone :: "'a list \<Rightarrow> 'a option" where
  "fetchone rows = (case rows of [] \<Rightarrow> None | r # rs \<Rightarrow> Some r)"

subsection \<open>\<^verbatim>\<open>list_employees\<close>\<close>

text \<open>
  PostgreSQL takes \<^verbatim>\<open>LIMIT\<close> and \<^verbatim>\<open>OFFSET\<close> as \<^verbatim>\<open>bigint\<close>. A value outside the range of
  \<^verbatim>\<open>bigint\<close> is refused when the constant is converted, before any row is read
  (\<^verbatim>\<open>bigint out of range\<close>); a negative value is refused when the statement runs, the
  offset being examined before the limit. \<^verbatim>\<open>psycopg2\<close> raises the error and the endpoint does
  not catch it.
\<close>

datatype sql_error = NumericValueOutOfRange | NegativeOffset | NegativeLimit

definition in_bigint :: "int \<Rightarrow> bool" where
  "in_bigint v = (- (2 ^ 63) \<le> v \<and> v < 2 ^ 63)"

record employee_listing =
  le_id :: int
  le_first_name :: string
  le_last_name :: string
  le_email :: string
  le_salary :: "rat option"
  le_department_name :: string

text \<open>The select list \<^verbatim>\<open>e.id, e.first_name, e.last_name, e.email, e.salary, d.name AS department_name\<close>.\<close>

definition listing_of :: "employee_row \<Rightarrow> department_row \<Rightarrow> employee_listing" where
  "listing_of e d = \<lparr>le_id = e_id e, le_first_name = e_first_name e,
                                   le_last_name = e_last_name e, le_email = e_email e,
                                   le_salary = e_salary e, le_department_name = d_name d\<rparr>"

text \<open>
  \<^verbatim>\<open>ORDER BY e.id\<close> is the insertion sort of the library, which is stable; SQL leaves the
  order of rows with equal ids open, and a key column has none.
\<close>

definition list_employees :: "database \<Rightarrow> int \<Rightarrow> int \<Rightarrow> sql_error + employee_listing list" where
  "list_employees db page per_page =
     (let offset = (page - 1) * per_page;
          joined = inner_join (employee db) (department db) (\<lambda>e d. e_department_id e = Some (d_id d));
          ordered = sort_key (\<lambda>(e, d). e_id e) joined;
          selected = map (\<lambda>(e, d). listing_of e d) ordered
      in if \<not> in_bigint per_page \<or> \<not> in_bigint offset then Inl NumericValueOutOfRange
         else if offset < 0 then Inl NegativeOffset
         else if per_page < 0 then Inl NegativeLimit
         else Inr (take (nat per_page) (drop (nat offset) selected)))"

text \<open>The employee's \<^verbatim>\<open>department_id\<close> is the id of a row of \<^verbatim>\<open>department\<close>.\<close>

definition has_department :: "database \<Rightarrow> employee_row \<Rightarrow> bool" where
  "has_department db e =
     (case e_department_id e of None \<Rightarrow> False | Some i \<Rightarrow> i \<in> set (map d_id (department db)))"

subsection \<open>\<^verbatim>\<open>list_department_employees\<close>\<close>

record department_employee =
  de_id :: int
  de_first_name :: string
  de_last_name :: string
  de_email :: string
  de_salary :: "rat option"
  de_hire_date :: string

text \<open>What the endpoint returns: the list of rows, or the empty dict of \<^verbatim>\<open>department_employees or {}\<close>.\<close>

datatype department_employees_result =
    EmptyMapping
  | RowList "department_employee list"

definition list_department_employees :: "database \<Rightarrow> int \<Rightarrow> department_employees_result" where
  "list_department_employees db dept_id =
     (let matching = filter (\<lambda>e. e_department_id e = Some dept_id) (employee db);
          ordered = sort_key e_id matching;
          department_employees = map (\<lambda>e. \<lparr>de_id = e_id e, de_first_name = e_first_name e,
                                   de_last_name = e_last_name e, de_email = e_email e,
                                   de_salary = e_salary e, de_hire_date = e_hire_date e\<rparr>) ordered
      in if department_employees = [] then EmptyMapping else RowList department_employees)"

text \<open>The employees of a department: the rows of \<^verbatim>\<open>employee\<close> whose \<^verbatim>\<open>department_id\<close> is the given id.\<close>

definition department_employees_of :: "database \<Rightarrow> int \<Rightarrow> employee_row list" where
  "department_employees_of db dept_id = filter (\<lambda>e. e_department_id e = Some dept_id) (employee db)"

subsection \<open>\<^verbatim>\<open>department_stats\<close>\<close>

record department_kpi =
  department_name :: string
  employee_count :: nat
  avg_salary :: "rat option"
  project_count :: nat

text \<open>A row of \<^verbatim>\<open>department d LEFT JOIN employee e LEFT JOIN employee_project ep\<close>.\<close>

type_synonym stats_join = "(department_row \<times> employee_row option) \<times> employee_project_row option"

text \<open>\<^verbatim>\<open>COUNT(e.id)\<close>: the rows of the group whose \<^verbatim>\<open>e.id\<close> is not \<^verbatim>\<open>NULL\<close>.\<close>

definition count_e_id :: "stats_join list \<Rightarrow> nat" where
  "count_e_id rows = length (List.map_filter (\<lambda>((d, e), ep). map_option e_id e) rows)"

text \<open>
  \<^verbatim>\<open>AVG\<close> over a \<^verbatim>\<open>numeric\<close> (or integer) column is PostgreSQL's \<^verbatim>\<open>numeric\<close> division of the sum
  by the count. The quotient is rounded, half away from zero, to the scale that
  \<^verbatim>\<open>select_div_scale\<close> picks: enough decimals for at least 16 significant digits, estimated
  from the positions and values of the first base-10000 digits of the two operands, and
  at most 1000. The display scale of the column, which the schema fixes, is not in the
  model: PostgreSQL never picks a scale below it, which makes a difference only where it
  exceeds the scale picked here.
\<close>

text \<open>The number of base-10000 digits of \<open>n\<close> after the first.\<close>

fun base10000_weight :: "nat \<Rightarrow> nat" where
  "base10000_weight n = (if n < 10000 then 0 else Suc (base10000_weight (n div 10000)))"

declare base10000_weight.simps [simp del]

text \<open>The position of the first non-zero base-10000 digit of \<open>x\<close>, 0 being the units; 0 for 0.\<close>

definition numeric_weight :: "rat \<Rightarrow> int" where
  "numeric_weight x =
     (let a = \<bar>x\<bar>
      in if a = 0 then 0
         else if 1 \<le> a then int (base10000_weight (nat \<lfloor>a\<rfloor>))
         else - int (Suc (base10000_weight (nat \<lceil>1 / a\<rceil> - 1))))"

text \<open>The first non-zero base-10000 digit of \<open>x\<close>; 0 for 0.\<close>

definition numeric_first_digit :: "rat \<Rightarrow> int" where
  "numeric_first_digit x =
     (let a = \<bar>x\<bar>; w = numeric_weight x
      in if 0 \<le> w then \<lfloor>a / 10000 ^ nat w\<rfloor> else \<lfloor>a * 10000 ^ nat (- w)\<rfloor>)"

definition select_div_scale :: "rat \<Rightarrow> rat \<Rightarrow> nat" where
  "select_div_scale x y =
     (let qweight = numeric_weight x - numeric_weight y -
                    (if numeric_first_digit x \<le> numeric_first_digit y then 1 else 0);
          rscale = 16 - qweight * 4
      in nat (min (max rscale 0) 1000))"

definition round_to_scale :: "nat \<Rightarrow> rat \<Rightarrow> rat" where
  "round_to_scale s q =
     (if 0 \<le> q then of_int \<lfloor>q * 10 ^ s + 1 / 2\<rfloor> / 10 ^ s
      else - of_int \<lfloor>- q * 10 ^ s + 1 / 2\<rfloor> / 10 ^ s)"

definition numeric_div :: "rat \<Rightarrow> rat \<Rightarrow> rat" where
  "numeric_div x y = round_to_scale (select_div_scale x y) (x / y)"

text \<open>\<^verbatim>\<open>AVG(e.salary)\<close>: over the rows of the group whose salary is not \<^verbatim>\<open>NULL\<close>; \<^verbatim>\<open>NULL\<close> when there is none.\<close>

definition avg_e_salary :: "stats_join list \<Rightarrow> rat option" where
  "avg_e_salary rows =
     (let vs = List.map_filter (\<lambda>((d, e), ep). Option.bind e e_salary) rows
      in if vs = [] then None else Some (numeric_div (sum_list vs) (of_nat (length vs))))"

text \<open>\<^verbatim>\<open>COUNT(DISTINCT ep.project_id)\<close>\<close>

definition count_distinct_project_id :: "stats_join list \<Rightarrow> nat" where
  "count_distinct_project_id rows =
     length (remdups (List.map_filter (\<lambda>((d, e), ep). map_option ep_project_id ep) rows))"

text \<open>
  The query, in SQL's order of evaluation: the joins, \<^verbatim>\<open>WHERE d.id = dept_id\<close>,
  \<^verbatim>\<open>GROUP BY d.id, d.name\<close> (one result row per group, no row when there is no group), the
  aggregates of each group; then \<^verbatim>\<open>fetchone\<close>.
\<close>

definition department_stats :: "database \<Rightarrow> int \<Rightarrow> department_kpi option" where
  "department_stats db dept_id =
     (let d_e = left_join (department db) (employee db) (\<lambda>d e. e_department_id e = Some (d_id d));
          d_e_ep = left_join d_e (employee_project db)
                     (\<lambda>(d, e) ep. case e of None \<Rightarrow> False | Some e' \<Rightarrow> ep_employee_id ep = e_id e');
          rows = filter (\<lambda>((d, e), ep). d_id d = dept_id) d_e_ep;
          groups = remdups (map (\<lambda>((d, e), ep). (d_id d, d_name d)) rows);
          result = map (\<lambda>g. let grp = filter (\<lambda>((d, e), ep). (d_id d, d_name d) = g) rows
                             in \<lparr>department_name = snd g,
                                 employee_count = count_e_id grp,
                                 avg_salary = avg_e_salary grp,
                                 project_count = count_distinct_project_id grp\<rparr>) groups
      in fetchone result)"

subsection \<open>\<^verbatim>\<open>seed_database\<close>: the delete phase\<close>

text \<open>
  The insert phase executes \<^verbatim>\<open>hr_seed_data.sql\<close>, which is not among the sources; the five
  \<^verbatim>\<open>DELETE\<close> statements are in the source.
\<close>

datatype table = SalaryHistory | EmployeeProject | Employee | Project | Department

text \<open>\<^verbatim>\<open>DELETE FROM t\<close> with no \<^verbatim>\<open>WHERE\<close>: every row of the table goes, no other table changes.\<close>

definition delete_from :: "table \<Rightarrow> database \<Rightarrow> database" where
  "delete_from t db =
     (case t of
        SalaryHistory \<Rightarrow> db\<lparr>salary_history := []\<rparr>
      | EmployeeProject \<Rightarrow> db\<lparr>employee_project := []\<rparr>
      | Employee \<Rightarrow> db\<lparr>employee := []\<rparr>
      | Project \<Rightarrow> db\<lparr>project := []\<rparr>
      | Department \<Rightarrow> db\<lparr>department := []\<rparr>)"

text \<open>The statements in the order of the source.\<close>

definition delete_script :: "table list" where
  "delete_script = [SalaryHistory, EmployeeProject, Employee, Project, Department]"

definition run_deletes :: "table list \<Rightarrow> database \<Rightarrow> database" where
  "run_deletes ts db = foldl (\<lambda>db t. delete_from t db) db ts"

text \<open>
  Modelled from the spec: the foreign keys are declared in \<^verbatim>\<open>hr_schema.sql\<close>, which is not
  among the sources; the spec names these four, as (referencing table, referenced table):
  employee to department, employee_project to employee and to project, salary_history to
  employee.
\<close>

definition foreign_keys :: "(table \<times> table) list" where
  "foreign_keys =
     [(Employee, Department), (EmployeeProject, Employee), (EmployeeProject, Project),
      (SalaryHistory, Employee)]"

text \<open>The key values of a referenced table.\<close>

fun ids :: "table \<Rightarrow> database \<Rightarrow> int list" where
  "ids Department db = map d_id (department db)"
| "ids Employee db = map e_id (employee db)"
| "ids Project db = map p_id (project db)"
| "ids t db = []"

text \<open>The values of the referencing column, those that are not \<^verbatim>\<open>NULL\<close>.\<close>

fun fk_values :: "table \<Rightarrow> table \<Rightarrow> database \<Rightarrow> int list" where
  "fk_values Employee Department db = List.map_filter e_department_id (employee db)"
| "fk_values EmployeeProject Employee db = map ep_employee_id (employee_project db)"
| "fk_values EmployeeProject Project db = map ep_project_id (employee_project db)"
| "fk_values SalaryHistory Employee db = map sh_employee_id (salary_history db)"
| "fk_values child parent db = []"

text \<open>
  Modelled from the spec: every foreign key is satisfied when each value of the referencing
  column is a key of the referenced table.
\<close>

definition fk_ok :: "database \<Rightarrow> bool" where
  "fk_ok db =
     list_all (\<lambda>(child, parent). set (fk_values child parent db) \<subseteq> set (ids parent db)) foreign_keys"

fun index_of :: "table \<Rightarrow> table list \<Rightarrow> nat" where
  "index_of t [] = 0"
| "index_of t (x # xs) = (if x = t then 0 else Suc (index_of t xs))"

definition empty_database :: database where
  "empty_database =
     \<lparr>department = [], employee = [], project = [], employee_project = [], salary_history = []\<rparr>"

subsection \<open>Concrete databases\<close>

definition dept :: "int \<Rightarrow> string \<Rightarrow> department_row" where
  "dept i n = \<lparr>d_id = i, d_name = n, d_location = ''Barcelona''\<rparr>"

definition emp :: "int \<Rightarrow> rat \<Rightarrow> int \<Rightarrow> employee_row" where
  "emp i s d = \<lparr>e_id = i, e_first_name = ''F'', e_last_name = ''L'', e_email = ''m'',
                e_salary = Some s, e_hire_date = ''2020-01-01'', e_department_id = Some d\<rparr>"

text \<open>
  Two employees in department 1, of whom the one with id 1 is assigned to two projects;
  department 2 has no employee.
\<close>

definition db_fanout :: database where
  "db_fanout =
     \<lparr>department = [dept 1 ''Eng'', dept 2 ''Ops''],
      employee = [emp 2 400 1, emp 1 100 1],
      project = [\<lparr>p_id = 10, p_name = ''A''\<rparr>, \<lparr>p_id = 11, p_name = ''B''\<rparr>],
      employee_project = [\<lparr>ep_employee_id = 1, ep_project_id = 10\<rparr>,
                          \<lparr>ep_employee_id = 1, ep_project_id = 11\<rparr>],
      salary_history = []\<rparr>"

definition db_three :: database where
  "db_three =
     \<lparr>department = [dept 1 ''Eng''],
      employee = [emp 3 300 1, emp 1 100 1, emp 2 400 1,
                  \<lparr>e_id = 4, e_first_name = ''F'', e_last_name = ''L'', e_email = ''m'',
                   e_salary = None, e_hire_date = ''2020-01-01'', e_department_id = None\<rparr>],
      project = [], employee_project = [], salary_history = []\<rparr>"

section \<open>Theorems\<close>

subsection \<open>The loop of \<^verbatim>\<open>download_data\<close>\<close>

lemma seconds_loop_body: "seconds (loop_body cfg a s) = seconds s + 5"
  by (simp add: loop_body_def Let_def emit_def next_timestamp_def split: fetch_result.split)

lemma downloaded_loop_body:
  "downloaded (loop_body cfg a s) = downloaded s + (if counted a then 1 else 0)"
  by (simp add: loop_body_def Let_def emit_def next_timestamp_def counted_def returns_200_def
      split: fetch_result.split)

lemma fetched_urls_append: "fetched_urls (xs @ ys) = fetched_urls xs @ fetched_urls ys"
  by (induction xs rule: fetched_urls.induct) simp_all

lemma fetched_urls_loop_body:
  "fetched_urls (trace (loop_body cfg a s)) =
     fetched_urls (trace s) @ [base_url cfg @ file_name (seconds s)]"
  by (simp add: loop_body_def Let_def emit_def next_timestamp_def fetched_urls_append
      split: fetch_result.split)

lemma trace_loop_body_counted:
  "counted a \<Longrightarrow>
   trace (loop_body cfg a s) = trace s @ success_events cfg (seconds s) (response_content a)"
  by (cases "fetch a")
    (simp_all add: loop_body_def Let_def emit_def next_timestamp_def counted_def returns_200_def
      response_content_def success_events_def)

lemma successes_0: "successes w 0 = 0"
  by (simp add: successes_def)

lemma successes_Suc:
  "successes w (Suc k) = (if counted (w 0) then 1 else 0) + successes (\<lambda>i. w (Suc i)) k"
  unfolding successes_def map_upt_Suc by simp

lemma download_loop_returns_if:
  "file_limit \<le> downloaded s + int (successes w k) \<Longrightarrow> \<exists>t. download_loop cfg file_limit w s = Some t"
proof (induction k arbitrary: w s)
  case 0
  then show ?case by (simp add: successes_0 download_loop.simps)
next
  case (Suc k)
  show ?case
  proof (cases "downloaded s < file_limit")
    case False
    then show ?thesis by (simp add: download_loop.simps)
  next
    case True
    have "file_limit \<le> downloaded (loop_body cfg (w 0) s) + int (successes (\<lambda>i. w (Suc i)) k)"
      using Suc.prems by (simp add: downloaded_loop_body successes_Suc split: if_splits)
    from Suc.IH [OF this] obtain t where
      "download_loop cfg file_limit (\<lambda>i. w (Suc i)) (loop_body cfg (w 0) s) = Some t" ..
    with True show ?thesis by (subst download_loop.simps) simp
  qed
qed

lemma download_loop_returns_only_if:
  assumes "download_loop cfg file_limit w s = Some t"
  shows "\<exists>k. file_limit \<le> downloaded s + int (successes w k)"
proof (rule download_loop.raw_induct
    [where P = "\<lambda>cfg file_limit w s t. \<exists>k. file_limit \<le> downloaded s + int (successes w k)",
      OF _ assms])
  fix loop cfg file_limit w s t
  assume IH: "\<And>cfg file_limit w s t. loop cfg file_limit w s = Some t \<Longrightarrow>
      \<exists>k. file_limit \<le> downloaded s + int (successes w k)"
    and body: "(if downloaded s < file_limit
      then loop cfg file_limit (\<lambda>i. w (Suc i)) (loop_body cfg (w 0) s)
      else Some s) = Some t"
  show "\<exists>k. file_limit \<le> downloaded s + int (successes w k)"
  proof (cases "downloaded s < file_limit")
    case False
    then have "file_limit \<le> downloaded s + int (successes w 0)" by (simp add: successes_0)
    then show ?thesis ..
  next
    case True
    with body have "loop cfg file_limit (\<lambda>i. w (Suc i)) (loop_body cfg (w 0) s) = Some t" by simp
    from IH [OF this] obtain k where
      "file_limit \<le> downloaded (loop_body cfg (w 0) s) + int (successes (\<lambda>i. w (Suc i)) k)" ..
    then have "file_limit \<le> downloaded s + int (successes w (Suc k))"
      by (simp add: downloaded_loop_body successes_Suc split: if_splits)
    then show ?thesis ..
  qed
qed

lemma download_loop_terminates_iff:
  "(download_loop cfg file_limit w s \<noteq> None) = (\<exists>k. file_limit \<le> downloaded s + int (successes w k))"
  using download_loop_returns_if download_loop_returns_only_if by (metis not_Some_eq)

lemma concat_map_upt_Suc:
  "concat (map f [0..<Suc m]) = f 0 @ concat (map (\<lambda>i. f (Suc i)) [0..<m])"
  unfolding map_upt_Suc by simp

lemma download_loop_all_counted:
  "\<forall>i. counted (w i) \<Longrightarrow> nat (n - downloaded s) = m \<Longrightarrow>
   \<exists>t. download_loop cfg n w s = Some t \<and>
       trace t = trace s @
         concat (map (\<lambda>i. success_events cfg (seconds s + 5 * int i) (response_content (w i))) [0..<m])"
proof (induction m arbitrary: w s)
  case 0
  then show ?case by (simp add: download_loop.simps)
next
  case (Suc m)
  let ?s = "loop_body cfg (w 0) s" and ?w = "\<lambda>i. w (Suc i)"
  from Suc.prems have lt: "downloaded s < n" by simp
  from Suc.prems have c0: "counted (w 0)" and cs: "\<forall>i. counted (?w i)" by simp_all
  have "nat (n - downloaded ?s) = m"
    using Suc.prems(2) c0 by (simp add: downloaded_loop_body)
  from Suc.IH [OF cs this] obtain t where
    t: "download_loop cfg n ?w ?s = Some t"
    and tr: "trace t = trace ?s @
      concat (map (\<lambda>i. success_events cfg (seconds ?s + 5 * int i) (response_content (w (Suc i)))) [0..<m])"
    by blast
  have "download_loop cfg n w s = Some t"
    using lt t by (subst download_loop.simps) simp
  moreover have "trace t = trace s @
      concat (map (\<lambda>i. success_events cfg (seconds s + 5 * int i) (response_content (w i))) [0..<Suc m])"
    unfolding tr concat_map_upt_Suc
    by (simp add: trace_loop_body_counted [OF c0] seconds_loop_body algebra_simps)
  ultimately show ?case by blast
qed

lemma length_filter_concat_const:
  "(\<And>x. x \<in> set xs \<Longrightarrow> length (filter P (f x)) = c) \<Longrightarrow>
   length (filter P (concat (map f xs))) = c * length xs"
  by (induction xs) simp_all

lemma uploads_success_events: "length (filter is_upload (success_events cfg sec c)) = 1"
  by (simp add: success_events_def)

lemma download_steps_urls:
  "\<exists>m\<le>k. seconds (download_steps cfg n k w s) = seconds s + 5 * int m \<and>
     fetched_urls (trace (download_steps cfg n k w s)) =
       fetched_urls (trace s) @ map (\<lambda>i. base_url cfg @ file_name (seconds s + 5 * int i)) [0..<m]"
proof (induction k arbitrary: w s)
  case 0
  then show ?case by simp
next
  case (Suc k)
  show ?case
  proof (cases "downloaded s < n")
    case False
    then have "seconds (download_steps cfg n (Suc k) w s) = seconds s + 5 * int 0 \<and>
      fetched_urls (trace (download_steps cfg n (Suc k) w s)) =
        fetched_urls (trace s) @ map (\<lambda>i. base_url cfg @ file_name (seconds s + 5 * int i)) [0..<0]"
      by simp
    then show ?thesis by blast
  next
    case True
    let ?s = "loop_body cfg (w 0) s" and ?w = "\<lambda>i. w (Suc i)"
    from Suc.IH [of ?w ?s] obtain m where m: "m \<le> k"
      and sec: "seconds (download_steps cfg n k ?w ?s) = seconds ?s + 5 * int m"
      and urls: "fetched_urls (trace (download_steps cfg n k ?w ?s)) =
        fetched_urls (trace ?s) @ map (\<lambda>i. base_url cfg @ file_name (seconds ?s + 5 * int i)) [0..<m]"
      by blast
    have "seconds (download_steps cfg n (Suc k) w s) = seconds s + 5 * int (Suc m)"
      using True sec by (simp add: seconds_loop_body)
    moreover have "fetched_urls (trace (download_steps cfg n (Suc k) w s)) =
        fetched_urls (trace s) @ map (\<lambda>i. base_url cfg @ file_name (seconds s + 5 * int i)) [0..<Suc m]"
      using True urls unfolding map_upt_Suc
      by (simp add: seconds_loop_body fetched_urls_loop_body algebra_simps)
    moreover have "Suc m \<le> Suc k" using m by simp
    ultimately show ?thesis by blast
  qed
qed

lemma download_loop_is_steps:
  assumes "download_loop cfg file_limit w s = Some t"
  shows "\<exists>k. t = download_steps cfg file_limit k w s"
proof (rule download_loop.raw_induct
    [where P = "\<lambda>cfg file_limit w s t. \<exists>k. t = download_steps cfg file_limit k w s", OF _ assms])
  fix loop cfg file_limit w s t
  assume IH: "\<And>cfg file_limit w s t. loop cfg file_limit w s = Some t \<Longrightarrow>
      \<exists>k. t = download_steps cfg file_limit k w s"
    and body: "(if downloaded s < file_limit
      then loop cfg file_limit (\<lambda>i. w (Suc i)) (loop_body cfg (w 0) s)
      else Some s) = Some t"
  show "\<exists>k. t = download_steps cfg file_limit k w s"
  proof (cases "downloaded s < file_limit")
    case False
    with body have "t = download_steps cfg file_limit 0 w s" by simp
    then show ?thesis ..
  next
    case True
    with body have "loop cfg file_limit (\<lambda>i. w (Suc i)) (loop_body cfg (w 0) s) = Some t" by simp
    from IH [OF this] obtain k where
      "t = download_steps cfg file_limit k (\<lambda>i. w (Suc i)) (loop_body cfg (w 0) s)" ..
    with True have "t = download_steps cfg file_limit (Suc k) w s" by simp
    then show ?thesis ..
  qed
qed

lemma digit_char_0: "digit_char 0 = CHR ''0''"
  by (simp add: digit_char_def)

lemma fmt_02d_two_digits:
  assumes "0 \<le> n" and "n < 100"
  shows "fmt_02d n = [digit_char (nat n div 10), digit_char (nat n mod 10)]"
proof (cases "n < 10")
  case True
  with assms have "nat n < 10" by simp
  with assms show ?thesis
    by (simp add: fmt_02d_def zero_pad_def dec_digits.simps [of "nat n"] digit_char_0)
next
  case False
  with assms have "nat n div 10 < 10" by simp
  with False assms show ?thesis
    by (simp add: fmt_02d_def zero_pad_def dec_digits.simps [of "nat n"] dec_digits.simps [of "nat n div 10"])
qed

lemma file_name_six_digits:
  assumes "0 \<le> sec" and "sec < 360000"
  shows "file_name sec =
     map digit_char
       [nat (sec div 3600) div 10, nat (sec div 3600) mod 10,
        nat (sec mod 3600 div 60) div 10, nat (sec mod 3600 div 60) mod 10,
        nat (sec mod 60) div 10, nat (sec mod 60) mod 10] @ ''Z.json.gz''"
proof -
  have h: "0 \<le> sec div 3600" "sec div 3600 < 100" using assms by auto
  have m: "0 \<le> sec mod 3600 div 60" "sec mod 3600 div 60 < 100"
    using pos_mod_bound [of 3600 sec] by auto
  have s: "0 \<le> sec mod 60" "sec mod 60 < 100"
    using pos_mod_bound [of 60 sec] by auto
  show ?thesis
    by (simp add: file_name_def Let_def fmt_02d_two_digits h m s)
qed

text \<open>
  C1: for every \<open>file_limit = n > 0\<close>, if every fetch returns HTTP 200, every upload
  succeeds and the temporary file can always be written and deleted, \<^verbatim>\<open>download_data\<close>
  returns \<^verbatim>\<open>"OK"\<close> after exactly the calls of \<open>n\<close> successful passes at the offsets
  \<open>0, 5, \<dots>, 5 (n - 1)\<close>: each file is fetched, written, uploaded once and then deleted
  locally, so that exactly \<open>n\<close> uploads are made.
\<close>

theorem download_data_all_succeed:
  assumes "0 < n"
    and "\<forall>i. returns_200 (w i) \<and> upload_succeeds (w i) \<and> local_file_ok (w i)"
  shows "\<exists>tr. download_data cfg w n = Some (''OK'', tr) \<and>
     tr = concat (map (\<lambda>i. success_events cfg (5 * int i) (response_content (w i))) [0..<nat n]) \<and>
     length (filter is_upload tr) = nat n"
proof -
  from assms(2) have "\<forall>i. counted (w i)"
    by (simp add: counted_def upload_succeeds_def local_file_ok_def)
  from download_loop_all_counted [OF this, of n initial_state "nat n" cfg]
  obtain t where "download_loop cfg n w initial_state = Some t"
    and "trace t = concat (map (\<lambda>i. success_events cfg (5 * int i) (response_content (w i))) [0..<nat n])"
    by (auto simp: initial_state_def)
  then show ?thesis
    by (simp add: download_data_def length_filter_concat_const [where c = 1] uploads_success_events)
qed

theorem download_data_all_succeed_witness:
  "download_data cfg0 (\<lambda>i. ok_attempt) 2 =
     Some (''OK'',
       [HttpGet ''http://h/2023/11/01/000000Z.json.gz'',
        WriteFile ''000000Z.json.gz'' ''x'',
        UploadFile ''000000Z.json.gz'' ''b'' ''raw/day=20231101/000000Z.json.gz'',
        Unlink ''000000Z.json.gz'',
        HttpGet ''http://h/2023/11/01/000005Z.json.gz'',
        WriteFile ''000005Z.json.gz'' ''x'',
        UploadFile ''000005Z.json.gz'' ''b'' ''raw/day=20231101/000005Z.json.gz'',
        Unlink ''000005Z.json.gz''])"
proof -
  have h: "\<forall>i::nat. returns_200 ok_attempt \<and> upload_succeeds ok_attempt \<and> local_file_ok ok_attempt"
    by (simp add: returns_200_def upload_succeeds_def local_file_ok_def ok_attempt_def)
  have "[0..<nat 2] = [0, 1]" by (simp add: upt_rec)
  then show ?thesis
    using download_data_all_succeed [of 2 "\<lambda>i. ok_attempt" cfg0, OF _ h]
    by (simp add: success_events_def response_content_def ok_attempt_def cfg0_def base_url_def
        s3_prefix_path_def file_name_def fmt_02d_def zero_pad_def dec_digits.simps digit_char_def)
qed

text \<open>
  Without the condition on the temporary file the count of uploads is not \<open>n\<close>: when
  deleting the file raises in the first pass, the upload of that pass has been made but is
  not counted, and \<open>file_limit = 1\<close> ends with two uploads.
\<close>

theorem download_data_uncounted_upload:
  "returns_200 unlink_fail_attempt \<and> upload_succeeds unlink_fail_attempt \<and>
   returns_200 ok_attempt \<and> upload_succeeds ok_attempt \<and>
   download_data cfg0 (\<lambda>i. if i = 0 then unlink_fail_attempt else ok_attempt) 1 =
     Some (''OK'',
       [HttpGet ''http://h/2023/11/01/000000Z.json.gz'',
        WriteFile ''000000Z.json.gz'' ''x'',
        UploadFile ''000000Z.json.gz'' ''b'' ''raw/day=20231101/000000Z.json.gz'',
        Unlink ''000000Z.json.gz'',
        HttpGet ''http://h/2023/11/01/000005Z.json.gz'',
        WriteFile ''000005Z.json.gz'' ''x'',
        UploadFile ''000005Z.json.gz'' ''b'' ''raw/day=20231101/000005Z.json.gz'',
        Unlink ''000005Z.json.gz'']) \<and>
   length (filter is_upload
       [HttpGet ''http://h/2023/11/01/000000Z.json.gz'',
        WriteFile ''000000Z.json.gz'' ''x'',
        UploadFile ''000000Z.json.gz'' ''b'' ''raw/day=20231101/000000Z.json.gz'',
        Unlink ''000000Z.json.gz'',
        HttpGet ''http://h/2023/11/01/000005Z.json.gz'',
        WriteFile ''000005Z.json.gz'' ''x'',
        UploadFile ''000005Z.json.gz'' ''b'' ''raw/day=20231101/000005Z.json.gz'',
        Unlink ''000005Z.json.gz'']) = 2"
  by (simp add: download_data_def initial_state_def download_loop.simps loop_body_def Let_def
      emit_def next_timestamp_def unlink_fail_attempt_def ok_attempt_def cfg0_def
      returns_200_def upload_succeeds_def
      base_url_def s3_prefix_path_def file_name_def fmt_02d_def zero_pad_def dec_digits.simps
      digit_char_def)

lemma counted_imp_uploaded: "counted a \<Longrightarrow> returns_200 a \<and> upload_succeeds a"
  by (simp add: counted_def upload_succeeds_def)

lemma successes_le_uploaded:
  "successes w k \<le> length (filter (\<lambda>a. returns_200 a \<and> upload_succeeds a) (map w [0..<k]))"
proof -
  have "filter counted xs = filter counted (filter (\<lambda>a. returns_200 a \<and> upload_succeeds a) xs)" for xs
    by (induction xs) (auto dest: counted_imp_uploaded)
  then have "successes w k =
      length (filter counted (filter (\<lambda>a. returns_200 a \<and> upload_succeeds a) (map w [0..<k])))"
    unfolding successes_def by simp
  also have "\<dots> \<le> length (filter (\<lambda>a. returns_200 a \<and> upload_succeeds a) (map w [0..<k]))"
    by (rule length_filter_le)
  finally show ?thesis .
qed

text \<open>
  C3: for every \<open>file_limit = n > 0\<close>, \<^verbatim>\<open>download_data\<close> returns if and only if some finite
  prefix of the sequence of attempts holds \<open>n\<close> attempts that return HTTP 200 and go through
  the whole \<^verbatim>\<open>try\<close> block (writing the temporary file, the upload, deleting the file) without an
  exception. So it returns only if \<open>n\<close> attempts return 200 and upload without an exception;
  where the temporary file can always be written and deleted, this is also enough; and
  when no attempt ever returns 200 and uploads, it never returns.
\<close>

theorem download_data_terminates_iff:
  assumes "0 < n"
  shows "((download_data cfg w n \<noteq> None) =
            (\<exists>k. n \<le> int (length (filter counted (map w [0..<k]))))) \<and>
         (download_data cfg w n \<noteq> None \<longrightarrow>
            (\<exists>k. n \<le> int (length (filter (\<lambda>a. returns_200 a \<and> upload_succeeds a) (map w [0..<k]))))) \<and>
         ((\<forall>i. local_file_ok (w i)) \<longrightarrow>
            (download_data cfg w n \<noteq> None) =
            (\<exists>k. n \<le> int (length (filter (\<lambda>a. returns_200 a \<and> upload_succeeds a) (map w [0..<k]))))) \<and>
         ((\<forall>i. \<not> (returns_200 (w i) \<and> upload_succeeds (w i))) \<longrightarrow> download_data cfg w n = None)"
proof -
  let ?good = "\<lambda>a. returns_200 a \<and> upload_succeeds a"
  have run: "(download_data cfg w n \<noteq> None) = (\<exists>k. n \<le> int (successes w k))"
    using download_loop_terminates_iff [of cfg n w initial_state]
    by (simp add: download_data_def initial_state_def)
  have only_if: "\<exists>k. n \<le> int (length (filter ?good (map w [0..<k])))"
    if "download_data cfg w n \<noteq> None"
  proof -
    from that run obtain k where "n \<le> int (successes w k)" by blast
    with successes_le_uploaded [of w k]
    have "n \<le> int (length (filter ?good (map w [0..<k])))" by linarith
    then show ?thesis ..
  qed
  have iff: "(download_data cfg w n \<noteq> None) = (\<exists>k. n \<le> int (length (filter ?good (map w [0..<k]))))"
    if l: "\<forall>i. local_file_ok (w i)"
  proof -
    have "counted (w i) = ?good (w i)" for i
      using l by (simp add: counted_def upload_succeeds_def local_file_ok_def)
    then have "successes w k = length (filter ?good (map w [0..<k]))" for k
      by (simp add: successes_def filter_map comp_def)
    with run show ?thesis by simp
  qed
  have never: "download_data cfg w n = None" if "\<forall>i. \<not> ?good (w i)"
  proof (rule ccontr)
    assume "download_data cfg w n \<noteq> None"
    from only_if [OF this] obtain k where k: "n \<le> int (length (filter ?good (map w [0..<k])))" ..
    have "filter ?good (map w [0..<k]) = []"
      using that by (simp add: filter_empty_conv)
    with k assms show False by simp
  qed
  from run have "(download_data cfg w n \<noteq> None) =
      (\<exists>k. n \<le> int (length (filter counted (map w [0..<k]))))"
    by (simp add: successes_def)
  with only_if iff never show ?thesis by blast
qed

theorem download_data_terminates_iff_witness:
  "download_data cfg0 (\<lambda>i. if i = 1 then ok_attempt else fail_attempt) 1 \<noteq> None \<and>
   download_data cfg0 (\<lambda>i. fail_attempt) 1 = None"
proof -
  let ?w = "\<lambda>i::nat. if i = 1 then ok_attempt else fail_attempt"
  have pos: "(0::int) < 1" by simp
  have l1: "\<forall>i. local_file_ok (?w i)"
    by (simp add: local_file_ok_def ok_attempt_def fail_attempt_def)
  have "[0..<2] = [0, Suc 0]" by (simp add: upt_rec)
  then have "(1::int) \<le> int (length (filter (\<lambda>a. returns_200 a \<and> upload_succeeds a) (map ?w [0..<2])))"
    by (simp add: returns_200_def upload_succeeds_def ok_attempt_def fail_attempt_def)
  then have ex: "\<exists>k. (1::int) \<le> int (length (filter (\<lambda>a. returns_200 a \<and> upload_succeeds a) (map ?w [0..<k])))" ..
  from download_data_terminates_iff [OF pos, of cfg0 ?w, THEN conjunct2, THEN conjunct2, THEN conjunct1]
    l1 ex
  have a: "download_data cfg0 ?w 1 \<noteq> None" by blast
  have "\<forall>i::nat. \<not> (returns_200 fail_attempt \<and> upload_succeeds fail_attempt)"
    by (simp add: returns_200_def fail_attempt_def)
  with download_data_terminates_iff [OF pos, of cfg0 "\<lambda>i. fail_attempt", THEN conjunct2, THEN conjunct2,
      THEN conjunct2]
  have b: "download_data cfg0 (\<lambda>i. fail_attempt) 1 = None" by blast
  from a b show ?thesis ..
qed

text \<open>
  Returning 200 and uploading without an exception is not enough: when deleting the
  temporary file raises in every pass, no pass is counted and the loop never ends.
\<close>

theorem download_data_unlink_always_raises:
  "returns_200 unlink_fail_attempt \<and> upload_succeeds unlink_fail_attempt \<and>
   (1::int) \<le> int (length (filter (\<lambda>a. returns_200 a \<and> upload_succeeds a)
                      (map (\<lambda>i. unlink_fail_attempt) [0..<1]))) \<and>
   download_data cfg0 (\<lambda>i. unlink_fail_attempt) 1 = None"
proof -
  have nc: "\<not> counted unlink_fail_attempt"
    by (simp add: counted_def unlink_fail_attempt_def)
  then have "successes (\<lambda>i. unlink_fail_attempt) k = 0" for k
    by (simp add: successes_def)
  with download_loop_terminates_iff [of cfg0 1 "\<lambda>i. unlink_fail_attempt" initial_state]
  have "download_data cfg0 (\<lambda>i. unlink_fail_attempt) 1 = None"
    by (simp add: download_data_def initial_state_def)
  then show ?thesis
    by (simp add: returns_200_def upload_succeeds_def unlink_fail_attempt_def)
qed

text \<open>
  C4: every pass through the loop body adds exactly 5 to the offset, whatever the attempt
  meets; so after any number of passes, \<open>m\<close> say, the offset is \<open>5 m\<close> and the URLs fetched
  so far are those of the offsets \<open>0, 5, \<dots>, 5 (m - 1)\<close>, in order, and the same holds of the
  trace of a run that returns. The URL of offset \<open>sec\<close> is the base URL followed by hours,
  minutes and seconds of \<open>sec\<close>, each in the format \<^verbatim>\<open>02d\<close>, and the suffix
  \<^verbatim>\<open>Z.json.gz\<close>; below 100 hours these are exactly six digits.
\<close>

theorem download_attempt_offsets:
  "seconds (loop_body cfg a s) = seconds s + 5 \<and>
   (\<exists>m\<le>k. seconds (download_steps cfg n k w initial_state) = 5 * int m \<and>
      fetched_urls (trace (download_steps cfg n k w initial_state)) =
        map (\<lambda>i. base_url cfg @ file_name (5 * int i)) [0..<m]) \<and>
   (download_data cfg w n = Some (r, tr) \<longrightarrow>
      (\<exists>m. fetched_urls tr = map (\<lambda>i. base_url cfg @ file_name (5 * int i)) [0..<m])) \<and>
   file_name sec =
      fmt_02d (sec div 3600) @ fmt_02d (sec mod 3600 div 60) @ fmt_02d (sec mod 60) @ ''Z.json.gz'' \<and>
   (0 \<le> sec \<and> sec < 360000 \<longrightarrow>
      file_name sec =
        map digit_char
          [nat (sec div 3600) div 10, nat (sec div 3600) mod 10,
           nat (sec mod 3600 div 60) div 10, nat (sec mod 3600 div 60) mod 10,
           nat (sec mod 60) div 10, nat (sec mod 60) mod 10] @ ''Z.json.gz'')"
proof -
  have steps: "\<exists>m\<le>k. seconds (download_steps cfg n k w initial_state) = 5 * int m \<and>
      fetched_urls (trace (download_steps cfg n k w initial_state)) =
        map (\<lambda>i. base_url cfg @ file_name (5 * int i)) [0..<m]" for k
    using download_steps_urls [of k cfg n w initial_state] by (simp add: initial_state_def)
  have "\<exists>m. fetched_urls tr = map (\<lambda>i. base_url cfg @ file_name (5 * int i)) [0..<m]"
    if "download_data cfg w n = Some (r, tr)"
  proof -
    from that obtain t where "download_loop cfg n w initial_state = Some t" and "tr = trace t"
      by (auto simp: download_data_def)
    with download_loop_is_steps obtain j where "tr = trace (download_steps cfg n j w initial_state)"
      by blast
    with steps [of j] show ?thesis by auto
  qed
  moreover have "file_name sec =
      fmt_02d (sec div 3600) @ fmt_02d (sec mod 3600 div 60) @ fmt_02d (sec mod 60) @ ''Z.json.gz''"
    by (simp add: file_name_def)
  ultimately show ?thesis
    using steps [of k] file_name_six_digits [of sec] seconds_loop_body [of cfg a s] by blast
qed

theorem download_attempt_offsets_witness:
  "download_data cfg0 (\<lambda>i. if i = 0 then raise_attempt else if i = 1 then fail_attempt else ok_attempt) 1 =
     Some (''OK'',
       [HttpGet ''http://h/2023/11/01/000000Z.json.gz'',
        HttpGet ''http://h/2023/11/01/000005Z.json.gz'',
        HttpGet ''http://h/2023/11/01/000010Z.json.gz'',
        WriteFile ''000010Z.json.gz'' ''x'',
        UploadFile ''000010Z.json.gz'' ''b'' ''raw/day=20231101/000010Z.json.gz'',
        Unlink ''000010Z.json.gz'']) \<and>
   (\<exists>m. [''http://h/2023/11/01/000000Z.json.gz'', ''http://h/2023/11/01/000005Z.json.gz'',
         ''http://h/2023/11/01/000010Z.json.gz''] =
        map (\<lambda>i. base_url cfg0 @ file_name (5 * int i)) [0..<m]) \<and>
   (0::int) \<le> 3725 \<and> (3725::int) < 360000 \<and> file_name 3725 = ''010205Z.json.gz''"
proof -
  let ?w = "\<lambda>i::nat. if i = 0 then raise_attempt else if i = 1 then fail_attempt else ok_attempt"
  let ?tr = "[HttpGet ''http://h/2023/11/01/000000Z.json.gz'',
        HttpGet ''http://h/2023/11/01/000005Z.json.gz'',
        HttpGet ''http://h/2023/11/01/000010Z.json.gz'',
        WriteFile ''000010Z.json.gz'' ''x'',
        UploadFile ''000010Z.json.gz'' ''b'' ''raw/day=20231101/000010Z.json.gz'',
        Unlink ''000010Z.json.gz'']"
  have run: "download_data cfg0 ?w 1 = Some (''OK'', ?tr)"
    by (simp add: download_data_def initial_state_def download_loop.simps loop_body_def Let_def
        emit_def next_timestamp_def raise_attempt_def fail_attempt_def ok_attempt_def cfg0_def
        base_url_def s3_prefix_path_def file_name_def fmt_02d_def zero_pad_def dec_digits.simps
        digit_char_def)
  note inst = download_attempt_offsets [of cfg0 raise_attempt initial_state 0 1 ?w "''OK''" ?tr 3725]
  from inst run have urls: "\<exists>m. [''http://h/2023/11/01/000000Z.json.gz'',
      ''http://h/2023/11/01/000005Z.json.gz'', ''http://h/2023/11/01/000010Z.json.gz''] =
        map (\<lambda>i. base_url cfg0 @ file_name (5 * int i)) [0..<m]"
    by simp
  from inst [THEN conjunct2, THEN conjunct2, THEN conjunct2, THEN conjunct2]
  have "file_name 3725 = ''010205Z.json.gz''"
    by (simp add: digit_char_def)
  with run urls show ?thesis by simp
qed

text \<open>
  C9: for every \<open>file_limit \<le> 0\<close> (the query parameter is a plain integer with no lower
  bound), \<^verbatim>\<open>download_data\<close> makes no call at all, neither a fetch nor an upload, and returns
  \<^verbatim>\<open>"OK"\<close>.
\<close>

theorem download_data_nonpositive_limit:
  "file_limit \<le> 0 \<Longrightarrow> download_data cfg w file_limit = Some (''OK'', [])"
  by (simp add: download_data_def initial_state_def download_loop.simps)

theorem download_data_nonpositive_limit_witness:
  "(-3::int) \<le> 0 \<and>
   download_data \<lparr>source_url = ''http://h'', s3_bucket = ''b'', raw_dir = ''d''\<rparr>
     (\<lambda>i. \<lparr>fetch = FetchRaises, write_raises = False, upload_raises = False, unlink_raises = False\<rparr>)
     (-3) = Some (''OK'', [])"
  using download_data_nonpositive_limit [of "-3"] by simp

subsection \<open>\<^verbatim>\<open>prepare_data\<close>\<close>

lemma split_on_nonempty: "split_on sep s \<noteq> []"
  by (induction s) (auto split: list.splits)

lemma split_on_no_sep: "sep \<notin> set s \<Longrightarrow> split_on sep s = [s]"
  by (induction s) auto

lemma length_split_on: "length (split_on sep s) = Suc (length (filter (\<lambda>c. c = sep) s))"
  by (induction s) (auto split: list.splits)

lemma last_split_on_after_sep:
  "sep \<notin> set b \<Longrightarrow> last (split_on sep (a @ sep # b)) = b"
proof (induction a)
  case Nil
  then show ?case by (simp add: split_on_no_sep)
next
  case (Cons c a)
  obtain q qs where q: "split_on sep (a @ sep # b) = q # qs"
    using split_on_nonempty [of sep "a @ sep # b"] by (cases "split_on sep (a @ sep # b)") auto
  have "length (split_on sep (a @ sep # b)) \<ge> 2"
    by (simp add: length_split_on)
  with q have "qs \<noteq> []" by auto
  with q Cons show ?case by (auto simp: split_on_nonempty)
qed

lemma key_filename_suffix:
  "\<exists>p. key = p @ key_filename key \<and> CHR ''/'' \<notin> set (key_filename key) \<and> (p = [] \<or> last p = CHR ''/'')"
proof (cases "CHR ''/'' \<in> set key")
  case False
  then have "key_filename key = key" by (simp add: key_filename_def split_on_no_sep)
  with False show ?thesis by simp
next
  case True
  then obtain a b where ab: "key = a @ CHR ''/'' # b" and b: "CHR ''/'' \<notin> set b"
    by (auto dest: split_list_last)
  then have f: "key_filename key = b" by (simp add: key_filename_def last_split_on_after_sep)
  have "key = (a @ ''/'') @ key_filename key" using ab f by simp
  moreover have "last (a @ ''/'') = CHR ''/''" by simp
  ultimately show ?thesis using b f by metis
qed

lemma local_raw_dir_last: "local_raw_dir cfg \<noteq> [] \<and> last (local_raw_dir cfg) \<noteq> CHR ''/''"
  by (simp add: local_raw_dir_def path_join_def)

lemma local_path_eq:
  "path_join (local_raw_dir cfg) (key_filename key) = local_raw_dir cfg @ ''/'' @ key_filename key"
proof -
  from key_filename_suffix [of key] have "CHR ''/'' \<notin> set (key_filename key)" by blast
  then have "\<not> (key_filename key \<noteq> [] \<and> hd (key_filename key) = CHR ''/'')"
    by (cases "key_filename key") auto
  then show ?thesis using local_raw_dir_last [of cfg] by (simp add: path_join_def)
qed

lemma copy_objects_all:
  "\<forall>key\<in>set objs. \<not> download_raises key \<Longrightarrow>
   copy_objects cfg download_raises objs tr =
     (Inr (), tr @ map (\<lambda>key. DownloadFile (s3_bucket cfg) key
                          (local_raw_dir cfg @ ''/'' @ key_filename key)) objs)"
  by (induction objs arbitrary: tr) (simp_all add: Let_def local_path_eq)

lemma filter_is_download_map:
  "filter is_download (map (\<lambda>key. DownloadFile (f key) key (g key)) objs) =
     map (\<lambda>key. DownloadFile (f key) key (g key)) objs"
  by (induction objs) simp_all

text \<open>
  C5: on a listing without contents \<^verbatim>\<open>prepare_data\<close> returns \<^verbatim>\<open>"No files in bucket"\<close> and
  downloads nothing. On a listing of \<open>k\<close> objects, none of whose downloads raises, it makes
  exactly \<open>k\<close> downloads, one per listed object in listing order, each to the local raw
  directory followed by \<^verbatim>\<open>/\<close> and the file name of the key, and returns \<^verbatim>\<open>"OK"\<close>. The file
  name of a key is what follows its last \<^verbatim>\<open>/\<close> (the whole key when it has none).
\<close>

theorem prepare_data_copies:
  "prepare_data cfg None download_raises =
     (Inr ''No files in bucket'', [MakeDirs (local_raw_dir cfg), ListObjects (s3_bucket cfg) ''raw/day=20231101/'']) \<and>
   filter is_download (snd (prepare_data cfg None download_raises)) = [] \<and>
   ((\<forall>key\<in>set objs. \<not> download_raises key) \<longrightarrow>
      prepare_data cfg (Some objs) download_raises =
        (Inr ''OK'',
         [MakeDirs (local_raw_dir cfg), ListObjects (s3_bucket cfg) ''raw/day=20231101/''] @
         map (\<lambda>key. DownloadFile (s3_bucket cfg) key (local_raw_dir cfg @ ''/'' @ key_filename key)) objs) \<and>
      length (filter is_download (snd (prepare_data cfg (Some objs) download_raises))) = length objs) \<and>
   (\<exists>p. key = p @ key_filename key \<and> CHR ''/'' \<notin> set (key_filename key) \<and>
        (p = [] \<or> last p = CHR ''/''))"
proof -
  have none: "prepare_data cfg None download_raises =
     (Inr ''No files in bucket'', [MakeDirs (local_raw_dir cfg), ListObjects (s3_bucket cfg) ''raw/day=20231101/''])"
    by (simp add: prepare_data_def)
  have some: "prepare_data cfg (Some objs) download_raises =
        (Inr ''OK'',
         [MakeDirs (local_raw_dir cfg), ListObjects (s3_bucket cfg) ''raw/day=20231101/''] @
         map (\<lambda>key. DownloadFile (s3_bucket cfg) key (local_raw_dir cfg @ ''/'' @ key_filename key)) objs)"
    if "\<forall>key\<in>set objs. \<not> download_raises key"
    using that by (simp add: prepare_data_def copy_objects_all)
  have "length (filter is_download (snd (prepare_data cfg (Some objs) download_raises))) = length objs"
    if "\<forall>key\<in>set objs. \<not> download_raises key"
    by (simp add: some [OF that] filter_is_download_map)
  with none some key_filename_suffix [of key] show ?thesis by simp
qed

theorem prepare_data_copies_witness:
  "prepare_data cfg0 (Some [''raw/day=20231101/000000Z.json.gz'', ''raw/day=20231101/sub/000005Z.json.gz''])
     (\<lambda>k. False) =
     (Inr ''OK'',
      [MakeDirs ''d/day=20231101'', ListObjects ''b'' ''raw/day=20231101/'',
       DownloadFile ''b'' ''raw/day=20231101/000000Z.json.gz'' ''d/day=20231101/000000Z.json.gz'',
       DownloadFile ''b'' ''raw/day=20231101/sub/000005Z.json.gz'' ''d/day=20231101/000005Z.json.gz''])"
  using prepare_data_copies [of cfg0 "\<lambda>k. False"
      "[''raw/day=20231101/000000Z.json.gz'', ''raw/day=20231101/sub/000005Z.json.gz'']" "[]"]
  by (simp add: cfg0_def local_raw_dir_def path_join_def key_filename_def)

subsection \<open>The read endpoints of s5\<close>

lemma map_sort_key: "map f (sort_key f xs) = sort (map f xs)"
proof (induction xs)
  case Nil
  then show ?case by simp
next
  case (Cons x xs)
  have "map f (insort_key f x ys) = insort (f x) (map f ys)" for ys
    by (induction ys) simp_all
  with Cons show ?case by simp
qed

lemma length_filter_key_distinct:
  "distinct (map f xs) \<Longrightarrow> length (filter (\<lambda>x. k = f x) xs) = (if k \<in> set (map f xs) then 1 else 0)"
  by (induction xs) auto

lemma employee_join_fst:
  assumes "distinct (map d_id (department db))"
  shows "map fst (inner_join es (department db) (\<lambda>e d. e_department_id e = Some (d_id d))) =
     filter (has_department db) es"
proof (induction es)
  case Nil
  then show ?case by (simp add: inner_join_def)
next
  case (Cons e es)
  let ?ms = "filter (\<lambda>d. e_department_id e = Some (d_id d)) (department db)"
  have "length ?ms = (if has_department db e then 1 else 0)"
  proof (cases "e_department_id e")
    case None
    then show ?thesis by (simp add: has_department_def)
  next
    case (Some i)
    with length_filter_key_distinct [OF assms, of i] show ?thesis
      by (simp add: has_department_def)
  qed
  moreover have "map fst (map (\<lambda>d. (e, d)) ?ms) = replicate (length ?ms) e"
    by (simp add: comp_def map_replicate_const)
  ultimately have "map fst (map (\<lambda>d. (e, d)) ?ms) = (if has_department db e then [e] else [])"
    by simp
  with Cons show ?case by (simp add: inner_join_def)
qed

lemma inner_join_member:
  "(x, y) \<in> set (inner_join xs ys on) \<Longrightarrow> x \<in> set xs \<and> y \<in> set ys \<and> on x y"
  by (auto simp: inner_join_def)

text \<open>
  C6: for every \<open>page \<ge> 1\<close> and \<open>per_page\<close> from 1 to 100 whose offset
  \<open>(page - 1) * per_page\<close> is in the range of \<^verbatim>\<open>bigint\<close>, where the department ids are a key,
  \<^verbatim>\<open>list_employees\<close> returns at most \<open>per_page\<close> rows in ascending order of employee id: of
  the employees with an existing department taken in id order, it skips the first
  \<open>(page - 1) * per_page\<close> and returns the next \<open>per_page\<close>, each with the name of its
  department; for a page beyond the last, the result is the empty list and not an error.
  For an offset of \<open>2 ^ 63\<close> or more the query is refused.
\<close>

theorem list_employees_page:
  assumes "1 \<le> page" and "1 \<le> per_page" and "per_page \<le> 100"
    and "distinct (map d_id (department db))"
  shows "((page - 1) * per_page < 2 ^ 63 \<longrightarrow>
     (\<exists>rows. list_employees db page per_page = Inr rows \<and>
       length rows \<le> nat per_page \<and>
       sorted (map le_id rows) \<and>
       map le_id rows =
         take (nat per_page) (drop (nat ((page - 1) * per_page))
           (sort (map e_id (filter (has_department db) (employee db))))) \<and>
       (\<forall>r\<in>set rows. \<exists>e\<in>set (employee db). \<exists>d\<in>set (department db).
          e_department_id e = Some (d_id d) \<and> r = listing_of e d) \<and>
       (int (length (filter (has_department db) (employee db))) \<le> (page - 1) * per_page \<longrightarrow>
          rows = []))) \<and>
   (2 ^ 63 \<le> (page - 1) * per_page \<longrightarrow>
      list_employees db page per_page = Inl NumericValueOutOfRange)"
proof (intro conjI impI)
  assume "2 ^ 63 \<le> (page - 1) * per_page"
  then show "list_employees db page per_page = Inl NumericValueOutOfRange"
    by (simp add: list_employees_def Let_def in_bigint_def)
next
  assume range: "(page - 1) * per_page < 2 ^ 63"
  let ?joined = "inner_join (employee db) (department db) (\<lambda>e d. e_department_id e = Some (d_id d))"
  let ?key = "\<lambda>(e, d). e_id e"
  let ?selected = "map (\<lambda>(e, d). listing_of e d) (sort_key ?key ?joined)"
  let ?off = "nat ((page - 1) * per_page)"
  let ?rows = "take (nat per_page) (drop ?off ?selected)"
  from assms have nonneg: "0 \<le> (page - 1) * per_page" by simp
  then have "\<not> (page - 1) * per_page < 0" by simp
  moreover from nonneg range have "in_bigint ((page - 1) * per_page)"
    by (simp add: in_bigint_def)
  moreover from assms(2,3) have "in_bigint per_page" "\<not> per_page < 0"
    by (simp_all add: in_bigint_def)
  ultimately have res: "list_employees db page per_page = Inr ?rows"
    by (simp add: list_employees_def Let_def listing_of_def)
  have "le_id \<circ> (\<lambda>(e, d). listing_of e d) = ?key"
    by (auto simp: listing_of_def)
  then have "map le_id ?selected = map ?key (sort_key ?key ?joined)" by simp
  also have "\<dots> = sort (map ?key ?joined)" by (rule map_sort_key)
  also have "map ?key ?joined = map e_id (map fst ?joined)"
    by (simp add: comp_def case_prod_beta)
  also have "map fst ?joined = filter (has_department db) (employee db)"
    by (rule employee_join_fst [OF assms(4)])
  finally have all_ids: "map le_id ?selected = sort (map e_id (filter (has_department db) (employee db)))" .
  have ids: "map le_id ?rows =
      take (nat per_page) (drop ?off (sort (map e_id (filter (has_department db) (employee db)))))"
    by (simp only: take_map [symmetric] drop_map [symmetric] all_ids)
  have srt: "sorted (map le_id ?rows)"
    unfolding ids by (intro sorted_wrt_take sorted_wrt_drop sorted_sort)
  have len: "length ?rows \<le> nat per_page" by simp
  have mem: "\<exists>e\<in>set (employee db). \<exists>d\<in>set (department db).
        e_department_id e = Some (d_id d) \<and> r = listing_of e d" if "r \<in> set ?rows" for r
  proof -
    from that have "r \<in> set ?selected"
      by (blast dest: in_set_takeD in_set_dropD)
    then obtain e d where "(e, d) \<in> set ?joined" and "r = listing_of e d" by auto
    with inner_join_member [of e d] show ?thesis by blast
  qed
  have beyond: "?rows = []"
    if "int (length (filter (has_department db) (employee db))) \<le> (page - 1) * per_page"
  proof -
    have "length ?selected = length (map le_id ?selected)" by simp
    also have "\<dots> = length (filter (has_department db) (employee db))"
      unfolding all_ids by simp
    finally have "length ?selected \<le> ?off" using that by simp
    then show ?thesis by simp
  qed
  from res len srt ids mem beyond
  show "\<exists>rows. list_employees db page per_page = Inr rows \<and>
       length rows \<le> nat per_page \<and>
       sorted (map le_id rows) \<and>
       map le_id rows =
         take (nat per_page) (drop (nat ((page - 1) * per_page))
           (sort (map e_id (filter (has_department db) (employee db))))) \<and>
       (\<forall>r\<in>set rows. \<exists>e\<in>set (employee db). \<exists>d\<in>set (department db).
          e_department_id e = Some (d_id d) \<and> r = listing_of e d) \<and>
       (int (length (filter (has_department db) (employee db))) \<le> (page - 1) * per_page \<longrightarrow>
          rows = [])"
    by blast
qed

theorem list_employees_page_witness:
  "(\<exists>rows. list_employees db_three 2 2 = Inr rows \<and> map le_id rows = [3]) \<and>
   list_employees db_three 3 2 = Inr [] \<and>
   list_employees db_three 9223372036854775809 1 = Inl NumericValueOutOfRange"
proof -
  have d: "distinct (map d_id (department db_three))"
    by (simp add: db_three_def dept_def)
  have f: "map e_id (filter (has_department db_three) (employee db_three)) = [3, 1, 2]"
    by (simp add: db_three_def dept_def emp_def has_department_def)
  from list_employees_page [of 2 2 db_three, OF _ _ _ d]
  have a: "\<exists>rows. list_employees db_three 2 2 = Inr rows \<and> map le_id rows = [3]"
    unfolding f by auto
  from list_employees_page [of 3 2 db_three, OF _ _ _ d]
  have b: "list_employees db_three 3 2 = Inr []"
    unfolding f by auto
  from list_employees_page [of 9223372036854775809 1 db_three, OF _ _ _ d]
  have c: "list_employees db_three 9223372036854775809 1 = Inl NumericValueOutOfRange"
    by simp
  from a b c show ?thesis by blast
qed

text \<open>
  A page far beyond the last is an error and not the empty list: for \<open>page = 10 ^ 19\<close> and
  \<open>per_page = 1\<close> the offset is above \<open>2 ^ 63 - 1\<close>, and PostgreSQL refuses the statement.
\<close>

theorem list_employees_offset_out_of_range:
  "(1::int) \<le> 10000000000000000000 \<and>
   int (length (filter (has_department db_three) (employee db_three))) \<le> (10000000000000000000 - 1) * 1 \<and>
   list_employees db_three 10000000000000000000 1 = Inl NumericValueOutOfRange \<and>
   list_employees db_three 10000000000000000000 1 \<noteq> Inr []"
  by (simp add: list_employees_def Let_def in_bigint_def db_three_def dept_def emp_def
      has_department_def)

text \<open>
  C7: when no employee has the given \<open>dept_id\<close>, \<^verbatim>\<open>list_department_employees\<close> returns the
  empty mapping, not an empty list; when some have, it returns the non-empty list of
  exactly those employees, in ascending order of id.
\<close>

theorem list_department_employees_result:
  "((\<forall>e\<in>set (employee db). e_department_id e \<noteq> Some dept_id) \<longrightarrow>
      list_department_employees db dept_id = EmptyMapping) \<and>
   ((\<exists>e\<in>set (employee db). e_department_id e = Some dept_id) \<longrightarrow>
      (\<exists>rows. list_department_employees db dept_id = RowList rows \<and> rows \<noteq> [] \<and>
         sorted (map de_id rows) \<and>
         map de_id rows = sort (map e_id (department_employees_of db dept_id)) \<and>
         set rows =
           (\<lambda>e. \<lparr>de_id = e_id e, de_first_name = e_first_name e, de_last_name = e_last_name e,
                  de_email = e_email e, de_salary = e_salary e, de_hire_date = e_hire_date e\<rparr>) `
             set (department_employees_of db dept_id)))"
proof -
  let ?proj = "\<lambda>e. \<lparr>de_id = e_id e, de_first_name = e_first_name e, de_last_name = e_last_name e,
                  de_email = e_email e, de_salary = e_salary e, de_hire_date = e_hire_date e\<rparr>"
  let ?m = "department_employees_of db dept_id"
  let ?rows = "map ?proj (sort_key e_id ?m)"
  have res: "list_department_employees db dept_id = (if ?rows = [] then EmptyMapping else RowList ?rows)"
    by (simp add: list_department_employees_def department_employees_of_def Let_def)
  have empty: "(?rows = []) = (\<forall>e\<in>set (employee db). e_department_id e \<noteq> Some dept_id)"
  proof -
    have "(?rows = []) = (sort_key e_id ?m = [])" by simp
    also have "\<dots> = (?m = [])" by (metis length_sort length_0_conv)
    also have "\<dots> = (\<forall>e\<in>set (employee db). e_department_id e \<noteq> Some dept_id)"
      by (simp add: department_employees_of_def filter_empty_conv)
    finally show ?thesis .
  qed
  have ids: "map de_id ?rows = sort (map e_id ?m)"
    by (simp add: comp_def map_sort_key)
  then have srt: "sorted (map de_id ?rows)" by (simp only: sorted_sort)
  have st: "set ?rows = ?proj ` set ?m" by simp
  show ?thesis
  proof (intro conjI impI)
    assume "\<forall>e\<in>set (employee db). e_department_id e \<noteq> Some dept_id"
    with res empty show "list_department_employees db dept_id = EmptyMapping" by simp
  next
    assume "\<exists>e\<in>set (employee db). e_department_id e = Some dept_id"
    with empty have ne: "?rows \<noteq> []" by blast
    with res have "list_department_employees db dept_id = RowList ?rows" by simp
    with ne ids srt st show "\<exists>rows. list_department_employees db dept_id = RowList rows \<and> rows \<noteq> [] \<and>
         sorted (map de_id rows) \<and>
         map de_id rows = sort (map e_id (department_employees_of db dept_id)) \<and>
         set rows = ?proj ` set (department_employees_of db dept_id)"
      by blast
  qed
qed

theorem list_department_employees_result_witness:
  "list_department_employees db_fanout 2 = EmptyMapping \<and>
   (\<exists>rows. list_department_employees db_fanout 1 = RowList rows \<and> map de_id rows = [1, 2])"
proof -
  have a: "\<forall>e\<in>set (employee db_fanout). e_department_id e \<noteq> Some 2"
    by (simp add: db_fanout_def emp_def)
  have b: "\<exists>e\<in>set (employee db_fanout). e_department_id e = Some 1"
    by (simp add: db_fanout_def emp_def)
  have c: "sort (map e_id (department_employees_of db_fanout 1)) = [1, 2]"
    by (simp add: department_employees_of_def db_fanout_def emp_def)
  from list_department_employees_result [of db_fanout 2] a
  have "list_department_employees db_fanout 2 = EmptyMapping" by blast
  moreover from list_department_employees_result [of db_fanout 1] b c
  have "\<exists>rows. list_department_employees db_fanout 1 = RowList rows \<and> map de_id rows = [1, 2]"
    by auto
  ultimately show ?thesis ..
qed

subsection \<open>\<^verbatim>\<open>department_stats\<close>\<close>

lemma floor_divide_numeral_rat:
  "\<lfloor>(numeral a :: rat) / numeral b\<rfloor> = numeral a div numeral b"
  using floor_divide_of_int_eq [of "numeral a" "numeral b", where ?'a = rat] by simp

lemma fst_left_join: "r \<in> set (left_join xs ys on) \<Longrightarrow> fst r \<in> set xs"
  by (auto simp: left_join_def Let_def split: if_splits)

lemma filter_left_join:
  "filter (\<lambda>r. P (fst r)) (left_join xs ys on) = left_join (filter P xs) ys on"
  by (induction xs) (auto simp: left_join_def Let_def)

lemma filter_key_distinct:
  "distinct (map f xs) \<Longrightarrow> x \<in> set xs \<Longrightarrow> filter (\<lambda>y. f y = f x) xs = [x]"
proof (induction xs)
  case Nil
  then show ?case by simp
next
  case (Cons a xs)
  show ?case
  proof (cases "a = x")
    case True
    with Cons.prems have nin: "f x \<notin> f ` set xs" by simp
    have "\<forall>y\<in>set xs. f y \<noteq> f x"
    proof
      fix y
      assume "y \<in> set xs"
      then have "f y \<in> f ` set xs" by simp
      with nin show "f y \<noteq> f x" by metis
    qed
    then have "filter (\<lambda>y. f y = f x) xs = []" by (simp add: filter_empty_conv)
    with True show ?thesis by simp
  next
    case False
    with Cons show ?thesis by auto
  qed
qed

lemma department_stats_rows:
  assumes "distinct (map d_id (department db))" and "d \<in> set (department db)"
  shows "filter (\<lambda>((d', e), ep). d_id d' = d_id d)
      (left_join (left_join (department db) (employee db) (\<lambda>d e. e_department_id e = Some (d_id d)))
         (employee_project db)
         (\<lambda>(d, e) ep. case e of None \<Rightarrow> False | Some e' \<Rightarrow> ep_employee_id ep = e_id e')) =
    left_join (left_join [d] (employee db) (\<lambda>d e. e_department_id e = Some (d_id d)))
         (employee_project db)
         (\<lambda>(d, e) ep. case e of None \<Rightarrow> False | Some e' \<Rightarrow> ep_employee_id ep = e_id e')"
proof -
  let ?on1 = "\<lambda>d e. e_department_id e = Some (d_id d)"
  let ?on2 = "\<lambda>(d, e) ep. case e of None \<Rightarrow> False | Some e' \<Rightarrow> ep_employee_id ep = e_id e'"
  let ?d_e = "left_join (department db) (employee db) ?on1"
  have eq: "(\<lambda>((d', e), ep). d_id d' = d_id d) = (\<lambda>r. d_id (fst (fst r)) = d_id d)"
    by (auto simp: fun_eq_iff)
  have "filter (\<lambda>((d', e), ep). d_id d' = d_id d) (left_join ?d_e (employee_project db) ?on2) =
      filter (\<lambda>r. d_id (fst (fst r)) = d_id d) (left_join ?d_e (employee_project db) ?on2)"
    by (simp only: eq)
  also have "\<dots> = left_join (filter (\<lambda>p. d_id (fst p) = d_id d) ?d_e) (employee_project db) ?on2"
    by (rule filter_left_join [of "\<lambda>p. d_id (fst p) = d_id d"])
  also have "filter (\<lambda>p. d_id (fst p) = d_id d) ?d_e =
      left_join (filter (\<lambda>d'. d_id d' = d_id d) (department db)) (employee db) ?on1"
    by (rule filter_left_join [of "\<lambda>d'. d_id d' = d_id d"])
  also have "filter (\<lambda>d'. d_id d' = d_id d) (department db) = [d]"
    by (rule filter_key_distinct [OF assms])
  finally show ?thesis .
qed

text \<open>
  A department without employees: one result row, with count 0, no average and no project.
\<close>

lemma department_stats_no_employees:
  assumes "distinct (map d_id (department db))" and "d \<in> set (department db)"
    and "department_employees_of db (d_id d) = []"
  shows "department_stats db (d_id d) =
     Some \<lparr>department_name = d_name d, employee_count = 0, avg_salary = None, project_count = 0\<rparr>"
proof -
  from assms(3) have "filter (\<lambda>e. e_department_id e = Some (d_id d)) (employee db) = []"
    by (simp add: department_employees_of_def)
  then have "left_join (left_join [d] (employee db) (\<lambda>d e. e_department_id e = Some (d_id d)))
         (employee_project db)
         (\<lambda>(d, e) ep. case e of None \<Rightarrow> False | Some e' \<Rightarrow> ep_employee_id ep = e_id e') =
       [((d, None), None)]"
    by (simp add: left_join_def)
  with department_stats_rows [OF assms(1,2)]
  have rows: "filter (\<lambda>((d', e), ep). d_id d' = d_id d)
      (left_join (left_join (department db) (employee db) (\<lambda>d e. e_department_id e = Some (d_id d)))
         (employee_project db)
         (\<lambda>(d, e) ep. case e of None \<Rightarrow> False | Some e' \<Rightarrow> ep_employee_id ep = e_id e')) =
       [((d, None), None)]"
    by (simp only:)
  show ?thesis
    unfolding department_stats_def Let_def rows
    by (simp add: fetchone_def count_e_id_def avg_e_salary_def count_distinct_project_id_def
        List.map_filter_def)
qed

text \<open>
  C2: \<^verbatim>\<open>department_stats\<close> on \<open>db_fanout\<close>, department 1. The department has two employees,
  with salaries 400 and 100 (average 250), and the employee with salary 100 is assigned to
  two projects. The join has one row per assignment, so \<^verbatim>\<open>COUNT(e.id)\<close> is 3 and
  \<^verbatim>\<open>AVG(e.salary)\<close> is \<open>(400 + 100 + 100) / 3 = 200\<close>: the employee count and the average are
  those of the joined rows, not of the employees.
\<close>

theorem department_stats_fan_out:
  "department_stats db_fanout 1 =
     Some \<lparr>department_name = ''Eng'', employee_count = 3, avg_salary = Some 200, project_count = 2\<rparr> \<and>
   length (department_employees_of db_fanout 1) = 2 \<and>
   map e_id (department_employees_of db_fanout 1) = [2, 1] \<and>
   map e_salary (department_employees_of db_fanout 1) = [Some 400, Some 100]"
  by (simp add: department_stats_def left_join_def Let_def fetchone_def count_e_id_def avg_e_salary_def
      count_distinct_project_id_def List.map_filter_def db_fanout_def dept_def emp_def
      department_employees_of_def numeric_div_def select_div_scale_def numeric_weight_def
      numeric_first_digit_def round_to_scale_def base10000_weight.simps floor_divide_numeral_rat)

text \<open>
  C10: for every \<open>dept_id\<close> that is the id of no department row, \<^verbatim>\<open>department_stats\<close> returns
  no record: the query has no group, hence no row, and \<^verbatim>\<open>fetchone\<close> gives \<^verbatim>\<open>None\<close>.
\<close>

theorem department_stats_unknown_department:
  "dept_id \<notin> set (map d_id (department db)) \<Longrightarrow> department_stats db dept_id = None"
proof -
  assume a: "dept_id \<notin> set (map d_id (department db))"
  let ?d_e = "left_join (department db) (employee db) (\<lambda>d e. e_department_id e = Some (d_id d))"
  let ?rows = "left_join ?d_e (employee_project db)
      (\<lambda>(d, e) ep. case e of None \<Rightarrow> False | Some e' \<Rightarrow> ep_employee_id ep = e_id e')"
  have "d_id d \<noteq> dept_id" if "((d, e), ep) \<in> set ?rows" for d e ep
  proof -
    from fst_left_join [OF that] have "(d, e) \<in> set ?d_e" by simp
    from fst_left_join [OF this] have "d \<in> set (department db)" by simp
    with a show ?thesis by auto
  qed
  then have "filter (\<lambda>((d, e), ep). d_id d = dept_id) ?rows = []"
    unfolding filter_empty_conv by blast
  then show ?thesis
    by (simp add: department_stats_def fetchone_def)
qed

theorem department_stats_unknown_department_witness:
  "3 \<notin> set (map d_id (department db_fanout)) \<and> department_stats db_fanout 3 = None"
proof -
  have "3 \<notin> set (map d_id (department db_fanout))"
    by (simp add: db_fanout_def dept_def)
  with department_stats_unknown_department [of 3 db_fanout] show ?thesis by simp
qed

subsection \<open>The delete phase of \<^verbatim>\<open>seed_database\<close>\<close>

text \<open>
  C8: the five \<^verbatim>\<open>DELETE\<close> statements run in the order salary_history, employee_project,
  employee, project, department, in which every referencing table comes before each table
  it references; from a database that satisfies the foreign keys, the database after each
  of the five statements satisfies them too, and the last one leaves every table empty.
\<close>

theorem seed_database_delete_order:
  "list_all (\<lambda>(child, parent). index_of child delete_script < index_of parent delete_script)
     foreign_keys \<and>
   (fk_ok db \<longrightarrow>
      list_all (\<lambda>n. fk_ok (run_deletes (take n delete_script) db)) [1, 2, 3, 4, 5]) \<and>
   run_deletes delete_script db = empty_database"
  by (simp add: foreign_keys_def delete_script_def run_deletes_def delete_from_def fk_ok_def
      empty_database_def)

theorem seed_database_delete_order_witness:
  "fk_ok db_fanout \<and>
   list_all (\<lambda>n. fk_ok (run_deletes (take n delete_script) db_fanout)) [1, 2, 3, 4, 5] \<and>
   \<not> fk_ok (delete_from Department db_fanout)"
proof -
  have a: "fk_ok db_fanout"
    by (simp add: fk_ok_def foreign_keys_def db_fanout_def dept_def emp_def List.map_filter_def)
  have b: "\<not> fk_ok (delete_from Department db_fanout)"
    by (simp add: fk_ok_def foreign_keys_def db_fanout_def dept_def emp_def List.map_filter_def
        delete_from_def)
  from seed_database_delete_order [of db_fanout] a b show ?thesis by simp
qed

end
